theory Spec2Isabelle
  imports Complex_Main "HOL-Library.AList"
begin

unbundle bit_operations_syntax

section \<open>Configuration and the zone registry (main.py, lines 25-98)\<close>

definition WINDOW_WIDTH :: int where
  "WINDOW_WIDTH = 640"

definition WINDOW_HEIGHT :: int where
  "WINDOW_HEIGHT = 480"

text \<open>The two values of \<open>current_app_state\<close> (\<open>STATE_MENU = 0\<close>, \<open>STATE_PLAY = 1\<close>).\<close>

datatype app_state = STATE_MENU | STATE_PLAY

text \<open>
  One entry of the dictionary \<open>drum_zones\<close>: the pad's rectangle \<open>(x1, y1, x2, y2)\<close>, the
  reserved field \<open>strike_y\<close> (always \<open>None\<close>) and the flag of the crash cymbal.
\<close>

record zone_properties =
  box :: "int \<times> int \<times> int \<times> int"
  strike_y :: "int option"
  is_crash :: bool

definition ZONE_HEIGHT :: int where
  "ZONE_HEIGHT = 100"

definition bottom_row_drums :: "string list" where
  "bottom_row_drums = [''Kick'', ''Snare'', ''Hi-Hat'', ''Tom1'', ''Tom2'']"

definition number_of_drums :: int where
  "number_of_drums = int (length bottom_row_drums)"

definition zone_width :: int where
  "zone_width = WINDOW_WIDTH div number_of_drums"

text \<open>
  The body of the loop \<open>for index, drum_name in enumerate(bottom_row_drums)\<close>. A Python
  dictionary keeps insertion order and overwrites an existing key in place, which is what
  \<^const>\<open>AList.update\<close> does on an association list.
\<close>

definition add_bottom_zone ::
  "nat \<times> string \<Rightarrow> (string \<times> zone_properties) list \<Rightarrow> (string \<times> zone_properties) list" where
  "add_bottom_zone entry zones =
     (case entry of (index, drum_name) \<Rightarrow>
        (let x_position = int index * zone_width;
             y_position = WINDOW_HEIGHT - ZONE_HEIGHT
         in AList.update drum_name
              \<lparr>box = (x_position, y_position, x_position + zone_width, WINDOW_HEIGHT),
               strike_y = None, is_crash = False\<rparr> zones))"

definition crash_cymbal_width :: int where
  "crash_cymbal_width = WINDOW_WIDTH div 4"

definition drum_zones :: "(string \<times> zone_properties) list" where
  "drum_zones =
     AList.update ''Crash''
       \<lparr>box = (0, 0, crash_cymbal_width, ZONE_HEIGHT), strike_y = None, is_crash = True\<rparr>
       (fold add_bottom_zone (enumerate 0 bottom_row_drums) [])"

section \<open>Containment test (main.py, lines 212-224)\<close>

fun is_point_inside_zone :: "int \<Rightarrow> int \<Rightarrow> int \<times> int \<times> int \<times> int \<Rightarrow> bool" where
  "is_point_inside_zone point_x point_y (x1, y1, x2, y2) =
     (x1 \<le> point_x \<and> point_x \<le> x2 \<and> y1 \<le> point_y \<and> point_y \<le> y2)"

section \<open>The play branch of the main loop (main.py, lines 351-393)\<close>

text \<open>
  A contour is an array of points handed back by \<open>cv2.findContours\<close>. The loop only looks at
  it through two library calls, so a contour is modelled by what they return for it:
  \<open>cv2.contourArea\<close> (a float) and \<open>cv2.boundingRect\<close> (the integers \<open>x, y, w, h\<close>).
\<close>

record contour =
  contourArea :: real
  boundingRect :: "int \<times> int \<times> int \<times> int"

text \<open>
  The module-level variables the loop reads and writes. The dictionaries
  \<open>sound_is_locked\<close> and \<open>drums_being_hit\<close> are both built by a comprehension over the keys
  of \<open>drum_zones\<close> and are only ever indexed with such a key, so a lookup cannot miss; they
  are total functions from the drum name here. The field \<open>played\<close> records the effect of
  \<open>drum_sounds[drum_name].play()\<close>: the names of the samples started, oldest first.
\<close>

record vars =
  current_app_state :: app_state
  showing_credits :: bool
  sound_is_locked :: "string \<Rightarrow> bool"
  drums_being_hit :: "string \<Rightarrow> bool"
  played :: "string list"

text \<open>Lines 379-388: the loop over \<open>drum_zones.items()\<close> for one tracked centre.\<close>

fun zone_loop :: "int \<Rightarrow> int \<Rightarrow> (string \<times> zone_properties) list \<Rightarrow> vars \<Rightarrow> vars" where
  "zone_loop center_x center_y [] s = s"
| "zone_loop center_x center_y ((drum_name, zone_props) # rest) s =
     zone_loop center_x center_y rest
       (if is_point_inside_zone center_x center_y (box zone_props) then
          (let s1 = s\<lparr>drums_being_hit := (drums_being_hit s)(drum_name := True)\<rparr>
           in if \<not> sound_is_locked s1 drum_name then
                s1\<lparr>played := played s1 @ [drum_name],
                   sound_is_locked := (sound_is_locked s1)(drum_name := True)\<rparr>
              else s1)
        else s)"

text \<open>Lines 366-388: the loop over the detected contours, with the area filter.\<close>

fun contour_loop :: "(string \<times> zone_properties) list \<Rightarrow> contour list \<Rightarrow> vars \<Rightarrow> vars" where
  "contour_loop zones [] s = s"
| "contour_loop zones (c # rest) s =
     contour_loop zones rest
       (if contourArea c > 500 then
          (case boundingRect c of (x, y, w, h) \<Rightarrow>
             (let center_x = x + w div 2;
                  center_y = y + h div 2
              in zone_loop center_x center_y zones s))
        else s)"

text \<open>Lines 391-393: the locks of the drums that are not hit in this frame are released.\<close>

fun reset_loop :: "string list \<Rightarrow> vars \<Rightarrow> vars" where
  "reset_loop [] s = s"
| "reset_loop (drum_name # rest) s =
     reset_loop rest
       (if \<not> drums_being_hit s drum_name then
          s\<lparr>sound_is_locked := (sound_is_locked s)(drum_name := False)\<rparr>
        else s)"

text \<open>
  Lines 363-393 for one frame whose contours are \<open>detected_contours\<close>: \<open>drums_being_hit\<close> is
  rebuilt all false, the contours are processed, the locks are released.
\<close>

definition process_play_frame :: "contour list \<Rightarrow> vars \<Rightarrow> vars" where
  "process_play_frame detected_contours s =
     reset_loop (map fst drum_zones)
       (contour_loop drum_zones detected_contours (s\<lparr>drums_being_hit := (\<lambda>drum_name. False)\<rparr>))"

text \<open>
  The state at start-up (lines 31, 206, 227): the menu is shown, the credits are not, every
  lock is open and no sound has been played. \<open>drums_being_hit\<close> does not exist before the
  first play frame, which builds it before reading it.
\<close>

definition initial_vars :: vars where
  "initial_vars =
     \<lparr>current_app_state = STATE_MENU, showing_credits = False,
      sound_is_locked = (\<lambda>drum_name. False), drums_being_hit = (\<lambda>drum_name. False),
      played = []\<rparr>"

text \<open>Consecutive frames of the play state, each given by its contours.\<close>

fun play_frames :: "contour list list \<Rightarrow> vars \<Rightarrow> vars" where
  "play_frames [] s = s"
| "play_frames (detected_contours # later) s =
     play_frames later (process_play_frame detected_contours s)"

text \<open>The sounds started while one frame is processed: what the frame appends to the log.\<close>

definition frame_triggers :: "contour list \<Rightarrow> vars \<Rightarrow> string list" where
  "frame_triggers detected_contours s =
     drop (length (played s)) (played (process_play_frame detected_contours s))"

section \<open>Arrays and exceptions\<close>

text \<open>
  An array is modelled by its \<open>shape\<close>: rows, columns and, for a three-dimensional array,
  the number of channels. Pixel values play no part in what follows.
\<close>

record ndarray =
  rows :: nat
  cols :: nat
  channels :: "nat option"

datatype py_exception =
  cv2_error | IndexError | KeyError | ValueError | TypeError | MemoryError

definition shape :: "ndarray \<Rightarrow> nat list" where
  "shape a = rows a # cols a # (case channels a of None \<Rightarrow> [] | Some n \<Rightarrow> [n])"

text \<open>
  The number of indices that the slice \<open>start:stop\<close> selects on an axis of length \<open>n\<close>: a
  negative bound counts from the end, and both bounds are clipped to the axis.
\<close>

definition slice_length :: "nat \<Rightarrow> int \<Rightarrow> int \<Rightarrow> nat" where
  "slice_length n start stop =
     (let clip = (\<lambda>i. if i < 0 then max 0 (i + int n) else min i (int n))
      in nat (clip stop - clip start))"

text \<open>
  NumPy assigns a value to a view (\<open>view[:] = value\<close>) when the shape of the value can be
  broadcast to the shape of the view, and raises \<open>ValueError\<close> otherwise. Shapes are
  compared from the last axis backwards: an axis of the value must have the length of the
  view's axis or length 1, and axes the value has in excess must have length 1.
\<close>

fun broadcast_from_last :: "nat list \<Rightarrow> nat list \<Rightarrow> bool" where
  "broadcast_from_last [] view_axes = True"
| "broadcast_from_last (v # value_axes) [] = (v = 1 \<and> broadcast_from_last value_axes [])"
| "broadcast_from_last (v # value_axes) (d # view_axes) =
     ((v = d \<or> v = 1) \<and> broadcast_from_last value_axes view_axes)"

definition can_assign :: "nat list \<Rightarrow> nat list \<Rightarrow> bool" where
  "can_assign value_shape view_shape = broadcast_from_last (rev value_shape) (rev view_shape)"

section \<open>Drawing the pads (main.py, lines 155-186 and 285-310)\<close>

text \<open>
  Lines 155-159: the image kept for each pad is what \<open>load_drum_image\<close> returned at start-up
  for the pad's width \<open>x2 - x1\<close> and height \<open>y2 - y1\<close>, an array of that height and width
  with three channels.
\<close>

definition drum_images :: "(string \<times> ndarray) list" where
  "drum_images =
     map (\<lambda>(drum_name, zone_props).
            case box zone_props of
              (x1, y1, x2, y2) \<Rightarrow>
                (let width = x2 - x1;
                     height = y2 - y1
                 in (drum_name, \<lparr>rows = nat height, cols = nat width, channels = Some 3\<rparr>)))
       drum_zones"

text \<open>
  Lines 161-186. Unpacking \<open>drum_image.shape\<close> into three names needs three axes. The
  region of interest is a view of the frame; both branches assign to it an array of the
  shape of the drum image (\<open>cv2.addWeighted\<close> keeps the shape of its operands), and that
  assignment raises when the view is smaller than the image.
\<close>

definition overlay_drum_image_on_frame ::
  "ndarray \<Rightarrow> ndarray \<Rightarrow> int \<Rightarrow> int \<Rightarrow> bool \<Rightarrow> py_exception + unit" where
  "overlay_drum_image_on_frame main_frame drum_image x_start y_start is_being_hit =
     (case channels drum_image of
        None \<Rightarrow> Inl ValueError
      | Some n \<Rightarrow>
          (let img_height = int (rows drum_image);
               img_width = int (cols drum_image);
               region_of_interest =
                 main_frame
                   \<lparr>rows := slice_length (rows main_frame) y_start (y_start + img_height),
                    cols := slice_length (cols main_frame) x_start (x_start + img_width)\<rparr>
           in if is_being_hit then
                (let red_overlay = drum_image;
                     blended_image = drum_image
                 in if can_assign (shape blended_image) (shape region_of_interest) then Inr ()
                    else Inl ValueError)
              else if can_assign (shape drum_image) (shape region_of_interest) then Inr ()
              else Inl ValueError))"

text \<open>
  Lines 288-306: the loop over \<open>drum_zones.items()\<close>. The labels are drawn by library
  calls, which clip to the frame.
\<close>

fun render_pads ::
  "(string \<times> zone_properties) list \<Rightarrow> ndarray \<Rightarrow> vars \<Rightarrow> py_exception + unit" where
  "render_pads [] frame s = Inr ()"
| "render_pads ((drum_name, zone_props) # rest) frame s =
     (case box zone_props of
        (x1, y1, x2, y2) \<Rightarrow>
          (case map_of drum_images drum_name of
             None \<Rightarrow> Inl KeyError
           | Some current_drum_image \<Rightarrow>
               (let is_currently_hit = sound_is_locked s drum_name
                in case overlay_drum_image_on_frame frame current_drum_image x1 y1
                          is_currently_hit of
                     Inl e \<Rightarrow> Inl e
                   | Inr done \<Rightarrow> render_pads rest frame s)))"

definition render_drum_kit_interface :: "ndarray \<Rightarrow> vars \<Rightarrow> py_exception + unit" where
  "render_drum_kit_interface frame s = render_pads drum_zones frame s"

section \<open>The keyboard and the main loop (main.py, lines 316-408)\<close>

text \<open>
  What one iteration reads from outside: whether \<open>webcam.read()\<close> delivered a frame, the
  height and width of that frame (they are the camera's; 640 by 480 is only requested), the
  contours \<open>cv2.findContours\<close> finds in the mask of the frame, and the value of
  \<open>cv2.waitKey(1)\<close>. The menu and the credits are drawn by library calls alone
  (\<open>cv2.rectangle\<close>, \<open>cv2.putText\<close>), which clip to the frame.
\<close>

record tick =
  frame_captured :: bool
  frame_height :: nat
  frame_width :: nat
  detected_contours :: "contour list"
  waitKey :: int

text \<open>The frame read from the camera is a BGR image: three channels.\<close>

definition video_frame :: "tick \<Rightarrow> ndarray" where
  "video_frame t = \<lparr>rows = frame_height t, cols = frame_width t, channels = Some 3\<rparr>"

text \<open>
  An iteration falls through to the next one, leaves the loop by \<open>break\<close>, or raises an
  exception, which nothing in the loop catches.
\<close>

datatype 'a flow = Continue 'a | Break 'a | Raise py_exception 'a

definition ord :: "char \<Rightarrow> int" where
  "ord c = of_char c"

text \<open>Lines 335-345: the keys of the menu state.\<close>

definition menu_branch :: "int \<Rightarrow> vars \<Rightarrow> vars flow" where
  "menu_branch key s =
     (let key_pressed = key AND 0xFF
      in if key_pressed = ord CHR ''p'' then
           Continue (s\<lparr>current_app_state := STATE_PLAY, showing_credits := False\<rparr>)
         else if key_pressed = ord CHR ''c'' then Continue (s\<lparr>showing_credits := True\<rparr>)
         else if key_pressed = ord CHR ''b'' then Continue (s\<lparr>showing_credits := False\<rparr>)
         else if key_pressed = ord CHR ''q'' then Break s
         else Continue s)"

text \<open>
  Lines 351-404: the frame is processed, the pads are drawn, then the key is read and the
  keys of the play state are handled.
\<close>

definition play_branch :: "ndarray \<Rightarrow> contour list \<Rightarrow> int \<Rightarrow> vars \<Rightarrow> vars flow" where
  "play_branch frame contours key s =
     (let s1 = process_play_frame contours s
      in case render_drum_kit_interface frame s1 of
           Inl e \<Rightarrow> Raise e s1
         | Inr done \<Rightarrow>
             (let key_pressed = key AND 0xFF
              in if key_pressed = ord CHR ''b'' then
                   Continue (s1\<lparr>current_app_state := STATE_MENU, showing_credits := False\<rparr>)
                 else if key_pressed = ord CHR ''q'' then Break s1
                 else Continue s1))"

definition loop_body :: "tick \<Rightarrow> vars \<Rightarrow> vars flow" where
  "loop_body t s =
     (if \<not> frame_captured t then Break s
      else (case current_app_state s of
              STATE_MENU \<Rightarrow> menu_branch (waitKey t) s
            | STATE_PLAY \<Rightarrow>
                play_branch (video_frame t) (detected_contours t) (waitKey t) s))"

text \<open>
  \<open>while True\<close> runs for as long as the outside world supplies ticks; on a finite prefix of
  them the loop has left by \<open>break\<close>, has been ended by an exception, or is still running.
\<close>

fun main_loop :: "tick list \<Rightarrow> vars \<Rightarrow> vars flow" where
  "main_loop [] s = Continue s"
| "main_loop (t # later) s =
     (case loop_body t s of
        Break s' \<Rightarrow> Break s'
      | Raise e s' \<Rightarrow> Raise e s'
      | Continue s' \<Rightarrow> main_loop later s')"

text \<open>
  The frames on which every pad can be drawn: at least \<open>WINDOW_HEIGHT\<close> rows and
  \<open>WINDOW_WIDTH\<close> columns, three channels.
\<close>

definition frame_fits :: "ndarray \<Rightarrow> bool" where
  "frame_fits frame \<longleftrightarrow>
     nat WINDOW_HEIGHT \<le> rows frame \<and> nat WINDOW_WIDTH \<le> cols frame \<and> channels frame = Some 3"

section \<open>The tracked objects and the hit state, as the specification names them\<close>

text \<open>
  The centres that the contour loop tracks in a frame (lines 366-373): one for each contour
  that passes the area filter, the middle of its bounding rectangle.
\<close>

definition detected_objects :: "contour list \<Rightarrow> (int \<times> int) list" where
  "detected_objects contours =
     map (\<lambda>c. case boundingRect c of (x, y, w, h) \<Rightarrow> (x + w div 2, y + h div 2))
       (filter (\<lambda>c. contourArea c > 500) contours)"

text \<open>
  The hit state of the specification (section 4.2): a zone is hit when at least one tracked
  centre lies in its closed rectangle, all four edges included. The rectangle is written
  out here; the containment test of the code is not used.
\<close>

definition HitState :: "(int \<times> int) list \<Rightarrow> string \<Rightarrow> bool" where
  "HitState objects zone =
     (case map_of drum_zones zone of
        None \<Rightarrow> False
      | Some zone_props \<Rightarrow>
          (case box zone_props of
             (x1, y1, x2, y2) \<Rightarrow>
               list_ex (\<lambda>(cx, cy). x1 \<le> cx \<and> cx \<le> x2 \<and> y1 \<le> cy \<and> cy \<le> y2) objects))"

text \<open>
  The number of maximal contiguous runs of \<open>True\<close> in a list of booleans:
  \<^const>\<open>remdups_adj\<close> shrinks every maximal run of equal values to one element.
\<close>

definition hit_runs :: "bool list \<Rightarrow> nat" where
  "hit_runs hits = count_list (remdups_adj hits) True"

section \<open>The two-phase model of the specification (sections 4.2 and 4.3)\<close>

text \<open>
  The trigger debouncer of the specification for one zone, on the lock (false is Idle, true
  is Locked) and the hit state of the frame; it answers whether a trigger is emitted and the
  next lock. Idle and hit: emit, go to Locked. Locked and hit: no emission, stay Locked.
  Not hit: go to Idle, no emission.
\<close>

fun spec_debounce_zone :: "bool \<Rightarrow> bool \<Rightarrow> bool \<times> bool" where
  "spec_debounce_zone False True = (True, True)"
| "spec_debounce_zone True True = (False, True)"
| "spec_debounce_zone locked False = (False, False)"

fun spec_debouncer ::
  "string list \<Rightarrow> (string \<Rightarrow> bool) \<Rightarrow> (string \<Rightarrow> bool) \<Rightarrow> string list \<times> (string \<Rightarrow> bool)" where
  "spec_debouncer [] hit lock = ([], lock)"
| "spec_debouncer (zone # zones) hit lock =
     (case spec_debounce_zone (lock zone) (hit zone) of
        (emit, locked') \<Rightarrow>
          (case spec_debouncer zones hit (lock(zone := locked')) of
             (triggers, lock') \<Rightarrow> ((if emit then [zone] else []) @ triggers, lock')))"

text \<open>
  First the whole hit state of the frame is computed from all tracked objects, then every
  zone is debounced. The result is the triggers emitted, the new locks and the hit state.
\<close>

definition spec_two_phase_frame ::
  "contour list \<Rightarrow> (string \<Rightarrow> bool) \<Rightarrow> string list \<times> (string \<Rightarrow> bool) \<times> (string \<Rightarrow> bool)" where
  "spec_two_phase_frame contours lock =
     (let hit = HitState (detected_objects contours)
      in case spec_debouncer (map fst drum_zones) hit lock of
           (triggers, lock') \<Rightarrow> (triggers, lock', hit))"

section \<open>Image loading (main.py, lines 107-142)\<close>








text \<open>Auxiliary forms of the hit test over an arbitrary list of zones, used in the proofs.\<close>

definition in_zone :: "(string \<times> zone_properties) list \<Rightarrow> string \<Rightarrow> int \<Rightarrow> int \<Rightarrow> bool" where
  "in_zone zones z cx cy =
     list_ex (\<lambda>(n, zp). n = z \<and> is_point_inside_zone cx cy (box zp)) zones"

definition object_in_zone :: "(string \<times> zone_properties) list \<Rightarrow> string \<Rightarrow> contour \<Rightarrow> bool" where
  "object_in_zone zones z c =
     (contourArea c > 500 \<and>
      (case boundingRect c of (x, y, w, h) \<Rightarrow> in_zone zones z (x + w div 2) (y + h div 2)))"

definition frame_hits :: "(string \<times> zone_properties) list \<Rightarrow> contour list \<Rightarrow> string \<Rightarrow> bool" where
  "frame_hits zones cs z = list_ex (object_in_zone zones z) cs"

section \<open>What each loop does to the variables\<close>

lemma in_zone_Nil [simp]: "in_zone [] z cx cy = False"
  by (simp add: in_zone_def)

lemma in_zone_Cons [simp]:
  "in_zone ((n, zp) # zones) z cx cy =
     ((n = z \<and> is_point_inside_zone cx cy (box zp)) \<or> in_zone zones z cx cy)"
  by (simp add: in_zone_def)

lemma in_zone_name: "in_zone zones z cx cy \<Longrightarrow> z \<in> set (map fst zones)"
  by (induction zones) auto

lemma in_zone_map_of:
  "distinct (map fst zones) \<Longrightarrow>
   in_zone zones z cx cy =
     (case map_of zones z of None \<Rightarrow> False | Some zp \<Rightarrow> is_point_inside_zone cx cy (box zp))"
proof (induction zones)
  case Nil
  show ?case by simp
next
  case (Cons a zones)
  obtain n zp where a: "a = (n, zp)" by (cases a)
  from Cons.prems have d: "distinct (map fst zones)" and n: "n \<notin> set (map fst zones)"
    by (simp_all add: a)
  have "map_of zones n = None" using n by (simp add: map_of_eq_None_iff)
  then show ?case
    using Cons.IH [OF d] by (auto simp: a split: option.splits)
qed

lemma zone_loop_effect:
  "drums_being_hit (zone_loop cx cy zones s) z = (drums_being_hit s z \<or> in_zone zones z cx cy)
   \<and> sound_is_locked (zone_loop cx cy zones s) z = (sound_is_locked s z \<or> in_zone zones z cx cy)
   \<and> count_list (played (zone_loop cx cy zones s)) z =
       count_list (played s) z + (if in_zone zones z cx cy \<and> \<not> sound_is_locked s z then 1 else 0)
   \<and> current_app_state (zone_loop cx cy zones s) = current_app_state s
   \<and> showing_credits (zone_loop cx cy zones s) = showing_credits s"
proof (induction zones arbitrary: s)
  case Nil
  show ?case by simp
next
  case (Cons a zones)
  obtain n zp where a: "a = (n, zp)" by (cases a)
  show ?case
    unfolding a by (simp add: Cons.IH Let_def)
qed

lemma zone_loop_log: "\<exists>ts. played (zone_loop cx cy zones s) = played s @ ts"
proof (induction zones arbitrary: s)
  case Nil
  show ?case by simp
next
  case (Cons a zones)
  obtain n zp where a: "a = (n, zp)" by (cases a)
  let ?s1 = "if is_point_inside_zone cx cy (box zp) then
          (let s1 = s\<lparr>drums_being_hit := (drums_being_hit s)(n := True)\<rparr>
           in if \<not> sound_is_locked s1 n then
                s1\<lparr>played := played s1 @ [n],
                   sound_is_locked := (sound_is_locked s1)(n := True)\<rparr>
              else s1)
        else s"
  have "\<exists>us. played ?s1 = played s @ us" by (simp add: Let_def)
  then obtain us where us: "played ?s1 = played s @ us" ..
  from Cons.IH [of ?s1] obtain ts where "played (zone_loop cx cy zones ?s1) = played ?s1 @ ts" ..
  then have "played (zone_loop cx cy (a # zones) s) = played s @ (us @ ts)"
    unfolding a using us by simp
  then show ?case ..
qed

lemma frame_hits_Nil [simp]: "frame_hits zones [] z = False"
  by (simp add: frame_hits_def)

lemma frame_hits_Cons [simp]:
  "frame_hits zones (c # cs) z = (object_in_zone zones z c \<or> frame_hits zones cs z)"
  by (simp add: frame_hits_def)

lemma frame_hits_name: "frame_hits zones cs z \<Longrightarrow> z \<in> set (map fst zones)"
  by (induction cs) (auto simp: object_in_zone_def dest: in_zone_name)

lemma contour_loop_effect:
  "drums_being_hit (contour_loop zones cs s) z = (drums_being_hit s z \<or> frame_hits zones cs z)
   \<and> sound_is_locked (contour_loop zones cs s) z = (sound_is_locked s z \<or> frame_hits zones cs z)
   \<and> count_list (played (contour_loop zones cs s)) z =
       count_list (played s) z + (if frame_hits zones cs z \<and> \<not> sound_is_locked s z then 1 else 0)
   \<and> current_app_state (contour_loop zones cs s) = current_app_state s
   \<and> showing_credits (contour_loop zones cs s) = showing_credits s"
proof (induction cs arbitrary: s)
  case Nil
  show ?case by simp
next
  case (Cons c cs)
  obtain x y w h where r: "boundingRect c = (x, y, w, h)" by (cases "boundingRect c")
  show ?case
    by (simp add: Cons.IH r object_in_zone_def zone_loop_effect)
qed

lemma contour_loop_log: "\<exists>ts. played (contour_loop zones cs s) = played s @ ts"
proof (induction cs arbitrary: s)
  case Nil
  show ?case by simp
next
  case (Cons c cs)
  let ?s1 = "if contourArea c > 500 then
          (case boundingRect c of (x, y, w, h) \<Rightarrow>
             (let center_x = x + w div 2;
                  center_y = y + h div 2
              in zone_loop center_x center_y zones s))
        else s"
  have "\<exists>us. played ?s1 = played s @ us"
    using zone_loop_log by (simp split: prod.splits)
  then obtain us where us: "played ?s1 = played s @ us" ..
  from Cons.IH [of ?s1] obtain ts where "played (contour_loop zones cs ?s1) = played ?s1 @ ts" ..
  then have "played (contour_loop zones (c # cs) s) = played s @ (us @ ts)"
    using us by simp
  then show ?case ..
qed

lemma reset_loop_effect:
  "sound_is_locked (reset_loop names s) z =
     (sound_is_locked s z \<and> \<not> (z \<in> set names \<and> \<not> drums_being_hit s z))
   \<and> drums_being_hit (reset_loop names s) = drums_being_hit s
   \<and> played (reset_loop names s) = played s
   \<and> current_app_state (reset_loop names s) = current_app_state s
   \<and> showing_credits (reset_loop names s) = showing_credits s"
  by (induction names arbitrary: s) auto

section \<open>One frame of the play state\<close>

lemma drum_zones_eq:
  "drum_zones =
     [(''Kick'', \<lparr>box = (0, 380, 128, 480), strike_y = None, is_crash = False\<rparr>),
      (''Snare'', \<lparr>box = (128, 380, 256, 480), strike_y = None, is_crash = False\<rparr>),
      (''Hi-Hat'', \<lparr>box = (256, 380, 384, 480), strike_y = None, is_crash = False\<rparr>),
      (''Tom1'', \<lparr>box = (384, 380, 512, 480), strike_y = None, is_crash = False\<rparr>),
      (''Tom2'', \<lparr>box = (512, 380, 640, 480), strike_y = None, is_crash = False\<rparr>),
      (''Crash'', \<lparr>box = (0, 0, 160, 100), strike_y = None, is_crash = True\<rparr>)]"
  by (simp add: drum_zones_def add_bottom_zone_def bottom_row_drums_def enumerate_eq_zip
      zone_width_def number_of_drums_def WINDOW_WIDTH_def WINDOW_HEIGHT_def ZONE_HEIGHT_def
      crash_cymbal_width_def upt_rec)

lemma drum_names_distinct: "distinct (map fst drum_zones)"
  by (simp add: drum_zones_eq)

lemma frame_hits_HitState: "frame_hits drum_zones cs z = HitState (detected_objects cs) z"
proof (induction cs)
  case Nil
  show ?case by (simp add: HitState_def detected_objects_def split: option.splits)
next
  case (Cons c cs)
  obtain x y w h where r: "boundingRect c = (x, y, w, h)" by (cases "boundingRect c")
  show ?case
  proof (cases "map_of drum_zones z")
    case None
    then show ?thesis
      using Cons.IH
      by (simp add: object_in_zone_def r in_zone_map_of [OF drum_names_distinct]
          HitState_def detected_objects_def)
  next
    case (Some zp)
    obtain x1 y1 x2 y2 where b: "box zp = (x1, y1, x2, y2)" by (cases "box zp")
    show ?thesis
      using Cons.IH
      by (simp add: object_in_zone_def r in_zone_map_of [OF drum_names_distinct]
          HitState_def detected_objects_def Some b)
  qed
qed

lemma HitState_explicit:
  "HitState (detected_objects cs) z \<longleftrightarrow>
     (\<exists>zone_props x1 y1 x2 y2.
        map_of drum_zones z = Some zone_props \<and> box zone_props = (x1, y1, x2, y2)
        \<and> (\<exists>c \<in> set cs. \<exists>x y w h.
              500 < contourArea c \<and> boundingRect c = (x, y, w, h)
              \<and> x1 \<le> x + w div 2 \<and> x + w div 2 \<le> x2
              \<and> y1 \<le> y + h div 2 \<and> y + h div 2 \<le> y2))"
proof (cases "map_of drum_zones z")
  case None
  then show ?thesis by (simp add: HitState_def)
next
  case (Some zp)
  obtain x1 y1 x2 y2 where b: "box zp = (x1, y1, x2, y2)" by (cases "box zp")
  have "HitState (detected_objects cs) z \<longleftrightarrow>
      (\<exists>c \<in> set cs. \<exists>x y w h.
              500 < contourArea c \<and> boundingRect c = (x, y, w, h)
              \<and> x1 \<le> x + w div 2 \<and> x + w div 2 \<le> x2
              \<and> y1 \<le> y + h div 2 \<and> y + h div 2 \<le> y2)"
    by (induction cs)
      (auto simp: HitState_def detected_objects_def Some b split: prod.splits)
  then show ?thesis by (simp add: Some b)
qed

lemma HitState_name: "HitState (detected_objects cs) z \<Longrightarrow> z \<in> set (map fst drum_zones)"
  using frame_hits_name [of drum_zones cs z] by (simp add: frame_hits_HitState)

lemma frame_effect:
  "drums_being_hit (process_play_frame cs s) z = HitState (detected_objects cs) z
   \<and> sound_is_locked (process_play_frame cs s) z =
       (if z \<in> set (map fst drum_zones) then HitState (detected_objects cs) z
        else sound_is_locked s z)
   \<and> count_list (played (process_play_frame cs s)) z =
       count_list (played s) z
         + (if HitState (detected_objects cs) z \<and> \<not> sound_is_locked s z then 1 else 0)
   \<and> current_app_state (process_play_frame cs s) = current_app_state s
   \<and> showing_credits (process_play_frame cs s) = showing_credits s"
  using HitState_name [of cs z]
  by (auto simp add: process_play_frame_def reset_loop_effect contour_loop_effect frame_hits_HitState)

lemma frame_log: "played (process_play_frame cs s) = played s @ frame_triggers cs s"
proof -
  obtain ts where "played (contour_loop drum_zones cs (s\<lparr>drums_being_hit := (\<lambda>n. False)\<rparr>))
      = played (s\<lparr>drums_being_hit := (\<lambda>n. False)\<rparr>) @ ts"
    using contour_loop_log by blast
  then show ?thesis
    by (simp add: frame_triggers_def process_play_frame_def reset_loop_effect)
qed

lemma frame_triggers_count:
  "count_list (frame_triggers cs s) z =
     (if HitState (detected_objects cs) z \<and> \<not> sound_is_locked s z then 1 else 0)"
proof -
  have "count_list (played (process_play_frame cs s)) z
      = count_list (played s) z + count_list (frame_triggers cs s) z"
    by (simp add: frame_log)
  then show ?thesis
    using frame_effect [of cs s z] by simp
qed

section \<open>Containment\<close>

text \<open>
  C2. For every zone with bounds \<open>(x1, y1, x2, y2)\<close> and every point \<open>(px, py)\<close>, the
  containment test answers true exactly when \<open>x1 \<le> px \<le> x2\<close> and \<open>y1 \<le> py \<le> y2\<close>. So,
  for a rectangle with \<open>x1 \<le> x2\<close> and \<open>y1 \<le> y2\<close>, every point on one of the four edges is
  inside, and every point one unit beyond an edge is outside.
\<close>

theorem containment_closed_rectangle:
  "(is_point_inside_zone px py (x1, y1, x2, y2) \<longleftrightarrow> x1 \<le> px \<and> px \<le> x2 \<and> y1 \<le> py \<and> py \<le> y2)
   \<and> (x1 \<le> x2 \<and> y1 \<le> py \<and> py \<le> y2 \<longrightarrow>
        is_point_inside_zone x1 py (x1, y1, x2, y2) \<and> is_point_inside_zone x2 py (x1, y1, x2, y2))
   \<and> (y1 \<le> y2 \<and> x1 \<le> px \<and> px \<le> x2 \<longrightarrow>
        is_point_inside_zone px y1 (x1, y1, x2, y2) \<and> is_point_inside_zone px y2 (x1, y1, x2, y2))
   \<and> \<not> is_point_inside_zone (x1 - 1) py (x1, y1, x2, y2)
   \<and> \<not> is_point_inside_zone (x2 + 1) py (x1, y1, x2, y2)
   \<and> \<not> is_point_inside_zone px (y1 - 1) (x1, y1, x2, y2)
   \<and> \<not> is_point_inside_zone px (y2 + 1) (x1, y1, x2, y2)"
  by simp

theorem containment_closed_rectangle_witness:
  "(0::int) \<le> 128 \<and> (380::int) \<le> 480 \<and> (380::int) \<le> 400 \<and> (400::int) \<le> 480
   \<and> (0::int) \<le> 64 \<and> (64::int) \<le> 128
   \<and> is_point_inside_zone 0 400 (0, 380, 128, 480) \<and> is_point_inside_zone 128 400 (0, 380, 128, 480)
   \<and> is_point_inside_zone 64 380 (0, 380, 128, 480) \<and> is_point_inside_zone 64 480 (0, 380, 128, 480)
   \<and> \<not> is_point_inside_zone (0 - 1) 400 (0, 380, 128, 480)
   \<and> \<not> is_point_inside_zone (128 + 1) 400 (0, 380, 128, 480)
   \<and> \<not> is_point_inside_zone 64 (380 - 1) (0, 380, 128, 480)
   \<and> \<not> is_point_inside_zone 64 (480 + 1) (0, 380, 128, 480)"
  using containment_closed_rectangle [of 64 400 0 380 128 480] by simp

section \<open>Frame sequences\<close>

lemma play_frames_append: "play_frames (xs @ ys) s = play_frames ys (play_frames xs s)"
  by (induction xs arbitrary: s) simp_all

lemma hit_runs_False: "hit_runs (False # hits) = hit_runs hits"
  by (cases hits) (auto simp: hit_runs_def)

lemma hit_runs_all_True: "hits \<noteq> [] \<Longrightarrow> \<forall>h \<in> set hits. h \<Longrightarrow> hit_runs hits = 1"
proof (induction hits rule: remdups_adj.induct)
  case 1
  then show ?case by simp
next
  case (2 x)
  then show ?case by (simp add: hit_runs_def)
next
  case (3 x y xs)
  then show ?case by (auto simp: hit_runs_def)
qed

lemma hit_runs_gap: "hit_runs (xs @ False # ys) = hit_runs xs + hit_runs ys"
proof (induction xs rule: remdups_adj.induct)
  case 1
  show ?case by (simp add: hit_runs_False) (simp add: hit_runs_def)
next
  case (2 x)
  show ?case using hit_runs_False [of ys] by (cases x) (auto simp: hit_runs_def)
next
  case (3 x y xs)
  then show ?case by (auto simp: hit_runs_def)
qed

lemma trigger_count_general:
  assumes z: "z \<in> set (map fst drum_zones)"
  shows "count_list (played (play_frames frames s)) z + (if sound_is_locked s z then 1 else 0)
    = count_list (played s) z
        + hit_runs (sound_is_locked s z # map (\<lambda>f. HitState (detected_objects f) z) frames)"
proof (induction frames arbitrary: s)
  case Nil
  show ?case by (simp add: hit_runs_def)
next
  case (Cons f frames)
  let ?s1 = "process_play_frame f s"
  let ?h = "HitState (detected_objects f) z"
  let ?rest = "map (\<lambda>f. HitState (detected_objects f) z) frames"
  have lock: "sound_is_locked ?s1 z = ?h"
    using frame_effect [of f s z] z by simp
  have cnt: "count_list (played ?s1) z
      = count_list (played s) z + (if ?h \<and> \<not> sound_is_locked s z then 1 else 0)"
    using frame_effect [of f s z] by simp
  have ih: "count_list (played (play_frames frames ?s1)) z + (if ?h then 1 else 0)
      = count_list (played ?s1) z + hit_runs (?h # ?rest)"
    using Cons.IH [of ?s1] by (simp add: lock)
  show ?case
  proof (cases "sound_is_locked s z = ?h")
    case True
    then show ?thesis using ih cnt by (simp add: hit_runs_def)
  next
    case False
    then show ?thesis using ih cnt by (auto simp: hit_runs_def)
  qed
qed

lemma hit_run_effect:
  assumes "frames \<noteq> []" and "\<forall>f \<in> set frames. HitState (detected_objects f) z"
  shows "sound_is_locked (play_frames frames s) z
    \<and> count_list (played (play_frames frames s)) z
        = count_list (played s) z + (if sound_is_locked s z then 0 else 1)"
  using assms
proof (induction frames arbitrary: s)
  case Nil
  then show ?case by simp
next
  case (Cons f frames)
  have h: "HitState (detected_objects f) z" using Cons.prems by simp
  then have z: "z \<in> set (map fst drum_zones)" by (rule HitState_name)
  let ?s1 = "process_play_frame f s"
  have lock: "sound_is_locked ?s1 z"
    using frame_effect [of f s z] z h by simp
  have cnt: "count_list (played ?s1) z
      = count_list (played s) z + (if sound_is_locked s z then 0 else 1)"
    using frame_effect [of f s z] h by simp
  show ?case
  proof (cases "frames = []")
    case True
    then show ?thesis using lock cnt by simp
  next
    case False
    then show ?thesis
      using Cons.IH [of ?s1] Cons.prems lock cnt by simp
  qed
qed

lemma miss_run_effect:
  assumes "z \<in> set (map fst drum_zones)" and "frames \<noteq> []"
    and "\<forall>f \<in> set frames. \<not> HitState (detected_objects f) z"
  shows "\<not> sound_is_locked (play_frames frames s) z
    \<and> count_list (played (play_frames frames s)) z = count_list (played s) z"
  using assms(2,3)
proof (induction frames arbitrary: s)
  case Nil
  then show ?case by simp
next
  case (Cons f frames)
  have h: "\<not> HitState (detected_objects f) z" using Cons.prems by simp
  let ?s1 = "process_play_frame f s"
  have lock: "\<not> sound_is_locked ?s1 z"
    using frame_effect [of f s z] assms(1) h by simp
  have cnt: "count_list (played ?s1) z = count_list (played s) z"
    using frame_effect [of f s z] h by simp
  show ?case
  proof (cases "frames = []")
    case True
    then show ?thesis using lock cnt by simp
  next
    case False
    then show ?thesis
      using Cons.IH [of ?s1] Cons.prems lock cnt by simp
  qed
qed

text \<open>
  C1. For every zone \<open>z\<close> and every sequence of play frames processed from a state in which
  the lock of \<open>z\<close> is open, the number of times the sound of \<open>z\<close> is started equals the
  number of maximal contiguous runs of frames in which \<open>z\<close> is hit, whatever the length of
  the runs and however many tracked objects are in the zone in each frame. In a frame that
  starts with the lock of \<open>z\<close> held no sound of \<open>z\<close> is started, and no frame starts it
  more than once. In particular a single run of one or more hit frames starts the sound
  exactly once.
\<close>

theorem debounce_one_trigger_per_run:
  "(z \<in> set (map fst drum_zones) \<and> \<not> sound_is_locked s z \<longrightarrow>
      count_list (played (play_frames frames s)) z
        = count_list (played s) z
            + hit_runs (map (\<lambda>f. HitState (detected_objects f) z) frames))
   \<and> (\<not> sound_is_locked s z \<and> run \<noteq> [] \<and> (\<forall>f \<in> set run. HitState (detected_objects f) z) \<longrightarrow>
      count_list (played (play_frames run s)) z = count_list (played s) z + 1)
   \<and> (sound_is_locked s z \<longrightarrow> count_list (frame_triggers f s) z = 0)
   \<and> count_list (frame_triggers f s) z \<le> 1"
proof (intro conjI impI)
  assume "\<not> sound_is_locked s z \<and> run \<noteq> [] \<and> (\<forall>f \<in> set run. HitState (detected_objects f) z)"
  then show "count_list (played (play_frames run s)) z = count_list (played s) z + 1"
    using hit_run_effect [of run z s] by simp
next
  assume a: "z \<in> set (map fst drum_zones) \<and> \<not> sound_is_locked s z"
  then show "count_list (played (play_frames frames s)) z
        = count_list (played s) z
            + hit_runs (map (\<lambda>f. HitState (detected_objects f) z) frames)"
    using trigger_count_general [of z frames s] by (simp add: hit_runs_False)
next
  assume "sound_is_locked s z"
  then show "count_list (frame_triggers f s) z = 0"
    by (simp add: frame_triggers_count)
next
  show "count_list (frame_triggers f s) z \<le> 1"
    by (simp add: frame_triggers_count)
qed

theorem debounce_one_trigger_per_run_witness:
  "''Kick'' \<in> set (map fst drum_zones) \<and> \<not> sound_is_locked initial_vars ''Kick''
   \<and> sound_is_locked (initial_vars\<lparr>sound_is_locked := (\<lambda>n. True)\<rparr>) ''Kick''
   \<and> HitState (detected_objects [\<lparr>contourArea = 600, boundingRect = (54, 420, 20, 20)\<rparr>]) ''Kick''
   \<and> HitState (detected_objects [\<lparr>contourArea = 600, boundingRect = (54, 420, 20, 20)\<rparr>,
          \<lparr>contourArea = 900, boundingRect = (70, 400, 30, 30)\<rparr>]) ''Kick''
   \<and> count_list (played (play_frames
        [[\<lparr>contourArea = 600, boundingRect = (54, 420, 20, 20)\<rparr>],
         [\<lparr>contourArea = 600, boundingRect = (54, 420, 20, 20)\<rparr>,
          \<lparr>contourArea = 900, boundingRect = (70, 400, 30, 30)\<rparr>],
         [],
         [\<lparr>contourArea = 600, boundingRect = (54, 420, 20, 20)\<rparr>]] initial_vars)) ''Kick'' = 2
   \<and> count_list (played (play_frames
        [[\<lparr>contourArea = 600, boundingRect = (54, 420, 20, 20)\<rparr>],
         [\<lparr>contourArea = 600, boundingRect = (54, 420, 20, 20)\<rparr>,
          \<lparr>contourArea = 900, boundingRect = (70, 400, 30, 30)\<rparr>]] initial_vars)) ''Kick'' = 1
   \<and> count_list (frame_triggers [\<lparr>contourArea = 600, boundingRect = (54, 420, 20, 20)\<rparr>]
        (initial_vars\<lparr>sound_is_locked := (\<lambda>n. True)\<rparr>)) ''Kick'' = 0"
  using debounce_one_trigger_per_run [where z = "''Kick''" and s = initial_vars
      and frames = "[[\<lparr>contourArea = 600, boundingRect = (54, 420, 20, 20)\<rparr>],
         [\<lparr>contourArea = 600, boundingRect = (54, 420, 20, 20)\<rparr>,
          \<lparr>contourArea = 900, boundingRect = (70, 400, 30, 30)\<rparr>],
         [],
         [\<lparr>contourArea = 600, boundingRect = (54, 420, 20, 20)\<rparr>]]"
      and run = "[[\<lparr>contourArea = 600, boundingRect = (54, 420, 20, 20)\<rparr>],
         [\<lparr>contourArea = 600, boundingRect = (54, 420, 20, 20)\<rparr>,
          \<lparr>contourArea = 900, boundingRect = (70, 400, 30, 30)\<rparr>]]"]
    debounce_one_trigger_per_run [where z = "''Kick''"
      and s = "initial_vars\<lparr>sound_is_locked := (\<lambda>n. True)\<rparr>"
      and f = "[\<lparr>contourArea = 600, boundingRect = (54, 420, 20, 20)\<rparr>]"]
  by (simp add: drum_zones_eq initial_vars_def HitState_def detected_objects_def hit_runs_def)

text \<open>
  C4. After a frame is processed, \<open>drums_being_hit\<close> is true for a zone exactly when the zone
  has a rectangle \<open>(x1, y1, x2, y2)\<close> and at least one tracked contour has its centre
  \<open>(cx, cy)\<close> with \<open>x1 \<le> cx \<le> x2\<close> and \<open>y1 \<le> cy \<le> y2\<close>: the closed rectangle, all four
  edges included. This is the hit state of the specification. Whether the sound of a zone
  is started in the frame depends on the hit state and the lock of that zone alone: it is
  started once when the zone is hit with its lock open, and not at all otherwise. So two
  distinct zones hit in the same frame, each with its lock open, are each triggered exactly
  once.
\<close>

theorem hit_resolver_independent_zones:
  "(drums_being_hit (process_play_frame cs s) z \<longleftrightarrow>
      (\<exists>zone_props x1 y1 x2 y2.
         map_of drum_zones z = Some zone_props \<and> box zone_props = (x1, y1, x2, y2)
         \<and> (\<exists>c \<in> set cs. \<exists>x y w h.
               500 < contourArea c \<and> boundingRect c = (x, y, w, h)
               \<and> x1 \<le> x + w div 2 \<and> x + w div 2 \<le> x2
               \<and> y1 \<le> y + h div 2 \<and> y + h div 2 \<le> y2)))
   \<and> (drums_being_hit (process_play_frame cs s) z \<longleftrightarrow> HitState (detected_objects cs) z)
   \<and> count_list (frame_triggers cs s) z
       = (if HitState (detected_objects cs) z \<and> \<not> sound_is_locked s z then 1 else 0)
   \<and> (z1 \<noteq> z2 \<and> HitState (detected_objects cs) z1 \<and> HitState (detected_objects cs) z2
        \<and> \<not> sound_is_locked s z1 \<and> \<not> sound_is_locked s z2 \<longrightarrow>
          count_list (frame_triggers cs s) z1 = 1 \<and> count_list (frame_triggers cs s) z2 = 1)"
proof -
  have h: "drums_being_hit (process_play_frame cs s) z \<longleftrightarrow> HitState (detected_objects cs) z"
    using frame_effect [of cs s z] by simp
  show ?thesis
    unfolding h using HitState_explicit [of cs z] by (simp add: frame_triggers_count)
qed

theorem hit_resolver_independent_zones_witness:
  "''Kick'' \<noteq> ''Crash''
   \<and> HitState (detected_objects [\<lparr>contourArea = 600, boundingRect = (54, 420, 20, 20)\<rparr>,
        \<lparr>contourArea = 700, boundingRect = (30, 30, 40, 40)\<rparr>]) ''Kick''
   \<and> HitState (detected_objects [\<lparr>contourArea = 600, boundingRect = (54, 420, 20, 20)\<rparr>,
        \<lparr>contourArea = 700, boundingRect = (30, 30, 40, 40)\<rparr>]) ''Crash''
   \<and> \<not> sound_is_locked initial_vars ''Kick'' \<and> \<not> sound_is_locked initial_vars ''Crash''
   \<and> count_list (frame_triggers [\<lparr>contourArea = 600, boundingRect = (54, 420, 20, 20)\<rparr>,
        \<lparr>contourArea = 700, boundingRect = (30, 30, 40, 40)\<rparr>] initial_vars) ''Kick'' = 1
   \<and> count_list (frame_triggers [\<lparr>contourArea = 600, boundingRect = (54, 420, 20, 20)\<rparr>,
        \<lparr>contourArea = 700, boundingRect = (30, 30, 40, 40)\<rparr>] initial_vars) ''Crash'' = 1
   \<and> drums_being_hit (process_play_frame [\<lparr>contourArea = 600, boundingRect = (54, 420, 20, 20)\<rparr>,
        \<lparr>contourArea = 700, boundingRect = (30, 30, 40, 40)\<rparr>] initial_vars) ''Kick''
   \<and> \<not> drums_being_hit (process_play_frame [\<lparr>contourArea = 600, boundingRect = (54, 420, 20, 20)\<rparr>,
        \<lparr>contourArea = 700, boundingRect = (30, 30, 40, 40)\<rparr>] initial_vars) ''Snare''
   \<and> \<not> drums_being_hit
        (process_play_frame [\<lparr>contourArea = 600, boundingRect = (1000, 1000, 20, 20)\<rparr>] initial_vars)
        ''Kick''"
  using hit_resolver_independent_zones [where cs =
      "[\<lparr>contourArea = 600, boundingRect = (54, 420, 20, 20)\<rparr>,
        \<lparr>contourArea = 700, boundingRect = (30, 30, 40, 40)\<rparr>]" and s = initial_vars
      and z = "''Kick''" and ?z1.0 = "''Kick''" and ?z2.0 = "''Crash''"]
    hit_resolver_independent_zones [where cs =
      "[\<lparr>contourArea = 600, boundingRect = (54, 420, 20, 20)\<rparr>,
        \<lparr>contourArea = 700, boundingRect = (30, 30, 40, 40)\<rparr>]" and s = initial_vars
      and z = "''Snare''"]
    hit_resolver_independent_zones [where cs =
      "[\<lparr>contourArea = 600, boundingRect = (1000, 1000, 20, 20)\<rparr>]" and s = initial_vars
      and z = "''Kick''"]
  by (simp add: drum_zones_eq initial_vars_def HitState_def detected_objects_def)

text \<open>
  C5. A frame in which no tracked object is inside a zone leaves the lock of that zone open.
  Hence, from a state in which the lock of \<open>z\<close> is open, a run of frames that hit \<open>z\<close>,
  then one or more frames that do not, then another run of frames that hit \<open>z\<close> start the
  sound of \<open>z\<close> exactly twice.
\<close>

theorem debounce_rearm:
  "(z \<in> set (map fst drum_zones) \<and> \<not> HitState (detected_objects cs) z \<longrightarrow>
      \<not> sound_is_locked (process_play_frame cs s) z)
   \<and> (\<not> sound_is_locked s z
        \<and> first_run \<noteq> [] \<and> (\<forall>f \<in> set first_run. HitState (detected_objects f) z)
        \<and> gap \<noteq> [] \<and> (\<forall>f \<in> set gap. \<not> HitState (detected_objects f) z)
        \<and> second_run \<noteq> [] \<and> (\<forall>f \<in> set second_run. HitState (detected_objects f) z) \<longrightarrow>
      count_list (played (play_frames (first_run @ gap @ second_run) s)) z
        = count_list (played s) z + 2)"
proof (intro conjI impI)
  assume "z \<in> set (map fst drum_zones) \<and> \<not> HitState (detected_objects cs) z"
  then show "\<not> sound_is_locked (process_play_frame cs s) z"
    using frame_effect [of cs s z] by simp
next
  assume a: "\<not> sound_is_locked s z
        \<and> first_run \<noteq> [] \<and> (\<forall>f \<in> set first_run. HitState (detected_objects f) z)
        \<and> gap \<noteq> [] \<and> (\<forall>f \<in> set gap. \<not> HitState (detected_objects f) z)
        \<and> second_run \<noteq> [] \<and> (\<forall>f \<in> set second_run. HitState (detected_objects f) z)"
  then obtain f where "f \<in> set first_run" by (cases first_run) auto
  with a have z: "z \<in> set (map fst drum_zones)" by (blast intro: HitState_name)
  let ?s1 = "play_frames first_run s"
  let ?s2 = "play_frames gap ?s1"
  have 1: "count_list (played ?s1) z = count_list (played s) z + 1"
    using hit_run_effect [of first_run z s] a by simp
  have 2: "\<not> sound_is_locked ?s2 z \<and> count_list (played ?s2) z = count_list (played ?s1) z"
    using miss_run_effect [OF z, of gap ?s1] a by simp
  have 3: "count_list (played (play_frames second_run ?s2)) z = count_list (played ?s2) z + 1"
    using hit_run_effect [of second_run z ?s2] a 2 by simp
  show "count_list (played (play_frames (first_run @ gap @ second_run) s)) z
        = count_list (played s) z + 2"
    using 1 2 3 by (simp add: play_frames_append)
qed

theorem debounce_rearm_witness:
  "''Snare'' \<in> set (map fst drum_zones)
   \<and> \<not> HitState (detected_objects []) ''Snare''
   \<and> \<not> sound_is_locked (process_play_frame [] (initial_vars\<lparr>sound_is_locked := (\<lambda>n. True)\<rparr>)) ''Snare''
   \<and> \<not> sound_is_locked initial_vars ''Snare''
   \<and> HitState (detected_objects [\<lparr>contourArea = 600, boundingRect = (180, 420, 20, 20)\<rparr>]) ''Snare''
   \<and> \<not> HitState (detected_objects [\<lparr>contourArea = 600, boundingRect = (54, 420, 20, 20)\<rparr>]) ''Snare''
   \<and> count_list (played (play_frames
        ([[\<lparr>contourArea = 600, boundingRect = (180, 420, 20, 20)\<rparr>]]
         @ [[], [\<lparr>contourArea = 600, boundingRect = (54, 420, 20, 20)\<rparr>]]
         @ [[\<lparr>contourArea = 600, boundingRect = (180, 420, 20, 20)\<rparr>]]) initial_vars)) ''Snare'' = 2"
  using debounce_rearm [where z = "''Snare''" and cs = "[]"
      and s = "initial_vars\<lparr>sound_is_locked := (\<lambda>n. True)\<rparr>"]
    debounce_rearm [where z = "''Snare''" and s = initial_vars
      and first_run = "[[\<lparr>contourArea = 600, boundingRect = (180, 420, 20, 20)\<rparr>]]"
      and gap = "[[], [\<lparr>contourArea = 600, boundingRect = (54, 420, 20, 20)\<rparr>]]"
      and second_run = "[[\<lparr>contourArea = 600, boundingRect = (180, 420, 20, 20)\<rparr>]]"]
  by (simp add: drum_zones_eq initial_vars_def HitState_def detected_objects_def)

section \<open>The area filter\<close>

lemma contour_loop_append:
  "contour_loop zones (xs @ ys) s = contour_loop zones ys (contour_loop zones xs s)"
  by (induction xs arbitrary: s) simp_all

lemma frame_drop_small:
  "contourArea c \<le> 500 \<Longrightarrow>
   process_play_frame (before @ c # after) s = process_play_frame (before @ after) s"
  by (simp add: process_play_frame_def contour_loop_append)

lemma HitState_single:
  "HitState [(cx, cy)] z =
     (case map_of drum_zones z of None \<Rightarrow> False
      | Some zp \<Rightarrow> is_point_inside_zone cx cy (box zp))"
proof (cases "map_of drum_zones z")
  case None
  then show ?thesis by (simp add: HitState_def)
next
  case (Some zp)
  obtain x1 y1 x2 y2 where b: "box zp = (x1, y1, x2, y2)" by (cases "box zp")
  show ?thesis by (simp add: HitState_def Some b)
qed

lemma HitState_member:
  "(cx, cy) \<in> set objects \<Longrightarrow> map_of drum_zones z = Some zp \<Longrightarrow>
   is_point_inside_zone cx cy (box zp) \<Longrightarrow> HitState objects z"
  by (cases "box zp") (auto simp: HitState_def list_ex_iff)

text \<open>
  C3. A contour is dropped exactly when its area is not greater than 500: a
  frame that holds a contour of area at most 500 is processed as if the contour were absent.
  A contour of area greater than 500 is tracked, with the centre of its bounding rectangle
  \<open>(x + w div 2, y + h div 2)\<close> as centroid: alone in a frame it hits exactly the zones whose
  closed rectangle holds that centre, and in any frame it hits every such zone.
\<close>

theorem area_filter_strict:
  "(contourArea c \<le> 500 \<longrightarrow>
      process_play_frame (before @ c # after) s = process_play_frame (before @ after) s)
   \<and> (contourArea c > 500 \<and> boundingRect c = (x, y, w, h) \<longrightarrow>
        detected_objects [c] = [(x + w div 2, y + h div 2)]
        \<and> (\<forall>z. drums_being_hit (process_play_frame [c] s) z \<longleftrightarrow>
              (case map_of drum_zones z of None \<Rightarrow> False
               | Some zp \<Rightarrow> is_point_inside_zone (x + w div 2) (y + h div 2) (box zp)))
        \<and> (\<forall>z zp. map_of drum_zones z = Some zp
              \<and> is_point_inside_zone (x + w div 2) (y + h div 2) (box zp) \<longrightarrow>
              drums_being_hit (process_play_frame (before @ c # after) s) z))"
proof (intro conjI impI allI)
  assume "contourArea c \<le> 500"
  then show "process_play_frame (before @ c # after) s = process_play_frame (before @ after) s"
    by (rule frame_drop_small)
next
  assume a: "contourArea c > 500 \<and> boundingRect c = (x, y, w, h)"
  then show d: "detected_objects [c] = [(x + w div 2, y + h div 2)]"
    by (simp add: detected_objects_def)
  fix z
  show "drums_being_hit (process_play_frame [c] s) z \<longleftrightarrow>
              (case map_of drum_zones z of None \<Rightarrow> False
               | Some zp \<Rightarrow> is_point_inside_zone (x + w div 2) (y + h div 2) (box zp))"
    using frame_effect [of "[c]" s z] by (simp add: d HitState_single)
next
  fix z zp
  assume a: "contourArea c > 500 \<and> boundingRect c = (x, y, w, h)"
    and b: "map_of drum_zones z = Some zp
              \<and> is_point_inside_zone (x + w div 2) (y + h div 2) (box zp)"
  have "(x + w div 2, y + h div 2) \<in> set (detected_objects (before @ c # after))"
    using a by (simp add: detected_objects_def)
  then have "HitState (detected_objects (before @ c # after)) z"
    using b by (blast intro: HitState_member)
  then show "drums_being_hit (process_play_frame (before @ c # after) s) z"
    using frame_effect [of "before @ c # after" s z] by simp
qed

theorem area_filter_strict_witness:
  "contourArea \<lparr>contourArea = 499, boundingRect = (54, 420, 20, 20)\<rparr> \<le> 500
   \<and> process_play_frame ([] @ \<lparr>contourArea = 499, boundingRect = (54, 420, 20, 20)\<rparr> # []) initial_vars
       = process_play_frame ([] @ []) initial_vars
   \<and> contourArea \<lparr>contourArea = 501, boundingRect = (54, 420, 20, 20)\<rparr> > 500
   \<and> detected_objects [\<lparr>contourArea = 501, boundingRect = (54, 420, 20, 20)\<rparr>] = [(64, 430)]
   \<and> drums_being_hit
        (process_play_frame [\<lparr>contourArea = 501, boundingRect = (54, 420, 20, 20)\<rparr>] initial_vars)
        ''Kick''"
  using area_filter_strict [where c = "\<lparr>contourArea = 499, boundingRect = (54, 420, 20, 20)\<rparr>"
      and before = "[]" and after = "[]" and s = initial_vars]
    area_filter_strict [where c = "\<lparr>contourArea = 501, boundingRect = (54, 420, 20, 20)\<rparr>"
      and before = "[]" and after = "[]" and s = initial_vars
      and x = 54 and y = 420 and w = 20 and h = 20]
  by (simp add: drum_zones_eq)

text \<open>
  A contour of area exactly 500 is not below 500, and its centre lies in the Kick pad; yet
  the frame reports no hit and starts no sound.
\<close>

theorem area_500_discarded:
  "\<not> contourArea \<lparr>contourArea = 500, boundingRect = (54, 420, 20, 20)\<rparr> < 500
   \<and> is_point_inside_zone (54 + 20 div 2) (420 + 20 div 2) (0, 380, 128, 480)
   \<and> map_of drum_zones ''Kick''
       = Some \<lparr>box = (0, 380, 128, 480), strike_y = None, is_crash = False\<rparr>
   \<and> detected_objects [\<lparr>contourArea = 500, boundingRect = (54, 420, 20, 20)\<rparr>] = []
   \<and> \<not> drums_being_hit
        (process_play_frame [\<lparr>contourArea = 500, boundingRect = (54, 420, 20, 20)\<rparr>] initial_vars)
        ''Kick''
   \<and> played (process_play_frame [\<lparr>contourArea = 500, boundingRect = (54, 420, 20, 20)\<rparr>] initial_vars) = []"
  by (simp add: drum_zones_eq detected_objects_def process_play_frame_def initial_vars_def)

section \<open>Drawing the pads\<close>

lemma drum_images_eq:
  "drum_images =
     [(''Kick'', \<lparr>rows = 100, cols = 128, channels = Some 3\<rparr>),
      (''Snare'', \<lparr>rows = 100, cols = 128, channels = Some 3\<rparr>),
      (''Hi-Hat'', \<lparr>rows = 100, cols = 128, channels = Some 3\<rparr>),
      (''Tom1'', \<lparr>rows = 100, cols = 128, channels = Some 3\<rparr>),
      (''Tom2'', \<lparr>rows = 100, cols = 128, channels = Some 3\<rparr>),
      (''Crash'', \<lparr>rows = 100, cols = 160, channels = Some 3\<rparr>)]"
  by (simp add: drum_images_def drum_zones_eq)

lemma slice_length_full:
  "0 \<le> start \<Longrightarrow> 0 < len \<Longrightarrow>
   slice_length n start (start + int len) = len \<longleftrightarrow> nat start + len \<le> n"
  by (auto simp: slice_length_def Let_def min_def)

lemma overlay_effect:
  assumes "0 \<le> x" and "0 \<le> y" and "1 < h" and "1 < w"
  shows "overlay_drum_image_on_frame frame \<lparr>rows = h, cols = w, channels = Some 3\<rparr> x y hit
    = (if nat y + h \<le> rows frame \<and> nat x + w \<le> cols frame \<and> channels frame = Some 3
       then Inr () else Inl ValueError)"
proof -
  have r: "slice_length (rows frame) y (y + int h) = h \<longleftrightarrow> nat y + h \<le> rows frame"
    using assms by (simp add: slice_length_full)
  have c: "slice_length (cols frame) x (x + int w) = w \<longleftrightarrow> nat x + w \<le> cols frame"
    using assms by (simp add: slice_length_full)
  show ?thesis
  proof (cases "channels frame")
    case None
    then show ?thesis
      using assms by (simp add: overlay_drum_image_on_frame_def shape_def can_assign_def Let_def)
  next
    case (Some n)
    then show ?thesis
      using assms r c
      by (auto simp: overlay_drum_image_on_frame_def shape_def can_assign_def Let_def)
  qed
qed

lemma render_effect:
  "render_drum_kit_interface frame s = (if frame_fits frame then Inr () else Inl ValueError)"
  by (simp add: render_drum_kit_interface_def drum_zones_eq drum_images_eq overlay_effect
      frame_fits_def WINDOW_HEIGHT_def WINDOW_WIDTH_def)

section \<open>The main loop\<close>

lemma ord_keys [simp]:
  "ord CHR ''p'' = 112" "ord CHR ''c'' = 99" "ord CHR ''b'' = 98" "ord CHR ''q'' = 113"
  by (simp_all add: ord_def)

lemma loop_body_Break:
  "(\<exists>s'. loop_body t s = Break s') \<longleftrightarrow>
     (\<not> frame_captured t
      \<or> (waitKey t AND 0xFF = ord CHR ''q''
          \<and> (current_app_state s = STATE_MENU \<or> frame_fits (video_frame t))))"
  by (cases "current_app_state s")
    (auto simp: loop_body_def menu_branch_def play_branch_def Let_def render_effect)

lemma loop_body_Raise:
  "loop_body t s = Raise e s' \<longleftrightarrow>
     (frame_captured t \<and> current_app_state s = STATE_PLAY \<and> \<not> frame_fits (video_frame t)
      \<and> e = ValueError \<and> s' = process_play_frame (detected_contours t) s)"
  by (cases "current_app_state s")
    (auto simp: loop_body_def menu_branch_def play_branch_def Let_def render_effect)

lemma main_loop_ended:
  "(\<exists>s'. main_loop ticks s = Break s') \<or> (\<exists>e s'. main_loop ticks s = Raise e s') \<Longrightarrow>
   \<exists>t \<in> set ticks. \<not> frame_captured t \<or> waitKey t AND 0xFF = ord CHR ''q''
     \<or> \<not> frame_fits (video_frame t)"
proof (induction ticks arbitrary: s)
  case Nil
  then show ?case by simp
next
  case (Cons t ticks)
  show ?case
  proof (cases "loop_body t s")
    case (Continue s1)
    then have "(\<exists>s'. main_loop ticks s1 = Break s') \<or> (\<exists>e s'. main_loop ticks s1 = Raise e s')"
      using Cons.prems by simp
    then show ?thesis using Cons.IH [of s1] by auto
  next
    case (Break s1)
    then show ?thesis using loop_body_Break [of t s] by auto
  next
    case (Raise e s1)
    then show ?thesis using loop_body_Raise [of t s e s1] by auto
  qed
qed

lemma main_loop_fitting:
  assumes "\<forall>t \<in> set ticks. frame_captured t \<longrightarrow> frame_fits (video_frame t)"
  shows "((\<exists>s'. main_loop ticks s = Break s') \<longleftrightarrow>
      (\<exists>t \<in> set ticks. \<not> frame_captured t \<or> waitKey t AND 0xFF = ord CHR ''q''))
    \<and> \<not> (\<exists>e s'. main_loop ticks s = Raise e s')"
  using assms
proof (induction ticks arbitrary: s)
  case Nil
  show ?case by simp
next
  case (Cons t ticks)
  have fit: "frame_captured t \<longrightarrow> frame_fits (video_frame t)" using Cons.prems by simp
  have rest: "\<forall>t \<in> set ticks. frame_captured t \<longrightarrow> frame_fits (video_frame t)"
    using Cons.prems by simp
  show ?case
  proof (cases "loop_body t s")
    case (Continue s1)
    then have "\<not> (\<not> frame_captured t \<or> waitKey t AND 0xFF = ord CHR ''q'')"
      using loop_body_Break [of t s] fit by (cases "current_app_state s") auto
    then show ?thesis using Continue Cons.IH [OF rest, of s1] by auto
  next
    case (Break s1)
    then have "\<not> frame_captured t \<or> waitKey t AND 0xFF = ord CHR ''q''"
      using loop_body_Break [of t s] by blast
    then show ?thesis using Break by auto
  next
    case (Raise e s1)
    then show ?thesis using loop_body_Raise [of t s e s1] fit by simp
  qed
qed

text \<open>
  C8. An iteration leaves the loop by \<open>break\<close> exactly when the camera delivers no frame,
  or the key read in it is \<open>q\<close>, in the menu and in the play state alike. There is a third
  way out: in the play state a frame on which the pads cannot be drawn (fewer than 480
  rows or fewer than 640 columns) makes the drawing raise \<open>ValueError\<close>, which nothing
  catches, before the key is read. So when every captured frame is large enough,
  the loop has ended after a sequence of iterations exactly when one of them had no frame
  or read \<open>q\<close>; and in general a loop that has ended met one of the three conditions.
\<close>

theorem loop_exit_conditions:
  "((\<exists>s'. loop_body t s = Break s') \<longleftrightarrow>
      (\<not> frame_captured t
       \<or> (waitKey t AND 0xFF = ord CHR ''q''
           \<and> (current_app_state s = STATE_MENU \<or> frame_fits (video_frame t)))))
   \<and> ((\<exists>e s'. loop_body t s = Raise e s') \<longleftrightarrow>
      (frame_captured t \<and> current_app_state s = STATE_PLAY \<and> \<not> frame_fits (video_frame t)))
   \<and> (\<forall>e s'. loop_body t s = Raise e s' \<longrightarrow> e = ValueError)
   \<and> (frame_fits (video_frame t) \<longleftrightarrow> 480 \<le> frame_height t \<and> 640 \<le> frame_width t)
   \<and> ((\<forall>t \<in> set ticks. frame_captured t \<longrightarrow> frame_fits (video_frame t)) \<longrightarrow>
        ((\<exists>s'. main_loop ticks s = Break s') \<longleftrightarrow>
           (\<exists>t \<in> set ticks. \<not> frame_captured t \<or> waitKey t AND 0xFF = ord CHR ''q''))
        \<and> \<not> (\<exists>e s'. main_loop ticks s = Raise e s'))
   \<and> ((\<exists>s'. main_loop ticks s = Break s') \<or> (\<exists>e s'. main_loop ticks s = Raise e s') \<longrightarrow>
        (\<exists>t \<in> set ticks. \<not> frame_captured t \<or> waitKey t AND 0xFF = ord CHR ''q''
           \<or> \<not> frame_fits (video_frame t)))"
proof (intro conjI)
  show "(\<exists>s'. loop_body t s = Break s') \<longleftrightarrow>
      (\<not> frame_captured t
       \<or> (waitKey t AND 0xFF = ord CHR ''q''
           \<and> (current_app_state s = STATE_MENU \<or> frame_fits (video_frame t))))"
    by (rule loop_body_Break)
  show "(\<exists>e s'. loop_body t s = Raise e s') \<longleftrightarrow>
      (frame_captured t \<and> current_app_state s = STATE_PLAY \<and> \<not> frame_fits (video_frame t))"
    by (simp add: loop_body_Raise)
  show "\<forall>e s'. loop_body t s = Raise e s' \<longrightarrow> e = ValueError"
    by (simp add: loop_body_Raise)
  show "frame_fits (video_frame t) \<longleftrightarrow> 480 \<le> frame_height t \<and> 640 \<le> frame_width t"
    by (simp add: frame_fits_def video_frame_def WINDOW_HEIGHT_def WINDOW_WIDTH_def)
  show "(\<forall>t \<in> set ticks. frame_captured t \<longrightarrow> frame_fits (video_frame t)) \<longrightarrow>
        ((\<exists>s'. main_loop ticks s = Break s') \<longleftrightarrow>
           (\<exists>t \<in> set ticks. \<not> frame_captured t \<or> waitKey t AND 0xFF = ord CHR ''q''))
        \<and> \<not> (\<exists>e s'. main_loop ticks s = Raise e s')"
    using main_loop_fitting [of ticks s] by blast
  show "(\<exists>s'. main_loop ticks s = Break s') \<or> (\<exists>e s'. main_loop ticks s = Raise e s') \<longrightarrow>
        (\<exists>t \<in> set ticks. \<not> frame_captured t \<or> waitKey t AND 0xFF = ord CHR ''q''
           \<or> \<not> frame_fits (video_frame t))"
    using main_loop_ended [of ticks s] by blast
qed

theorem loop_exit_conditions_witness:
  "frame_fits (video_frame \<lparr>frame_captured = True, frame_height = 480, frame_width = 640,
       detected_contours = [], waitKey = 112\<rparr>)
   \<and> \<not> frame_fits (video_frame \<lparr>frame_captured = True, frame_height = 240, frame_width = 320,
       detected_contours = [], waitKey = - 1\<rparr>)
   \<and> (\<exists>s'. main_loop
     [\<lparr>frame_captured = True, frame_height = 480, frame_width = 640,
       detected_contours = [], waitKey = 112\<rparr>,
      \<lparr>frame_captured = True, frame_height = 480, frame_width = 640,
       detected_contours = [], waitKey = - 1\<rparr>,
      \<lparr>frame_captured = True, frame_height = 480, frame_width = 640,
       detected_contours = [], waitKey = 113\<rparr>,
      \<lparr>frame_captured = True, frame_height = 480, frame_width = 640,
       detected_contours = [], waitKey = 98\<rparr>] initial_vars = Break s')
   \<and> \<not> (\<exists>s'. main_loop
     [\<lparr>frame_captured = True, frame_height = 480, frame_width = 640,
       detected_contours = [], waitKey = 112\<rparr>,
      \<lparr>frame_captured = True, frame_height = 480, frame_width = 640,
       detected_contours = [], waitKey = - 1\<rparr>,
      \<lparr>frame_captured = True, frame_height = 480, frame_width = 640,
       detected_contours = [], waitKey = 98\<rparr>] initial_vars = Break s')
   \<and> \<not> (\<exists>e s'. main_loop
     [\<lparr>frame_captured = True, frame_height = 480, frame_width = 640,
       detected_contours = [], waitKey = 112\<rparr>,
      \<lparr>frame_captured = True, frame_height = 480, frame_width = 640,
       detected_contours = [], waitKey = - 1\<rparr>,
      \<lparr>frame_captured = True, frame_height = 480, frame_width = 640,
       detected_contours = [], waitKey = 98\<rparr>] initial_vars = Raise e s')
   \<and> (\<exists>s'. loop_body
          \<lparr>frame_captured = False, frame_height = 0, frame_width = 0,
           detected_contours = [], waitKey = - 1\<rparr> initial_vars = Break s')
   \<and> (\<exists>e s'. loop_body
          \<lparr>frame_captured = True, frame_height = 240, frame_width = 320,
           detected_contours = [], waitKey = - 1\<rparr>
          (initial_vars\<lparr>current_app_state := STATE_PLAY\<rparr>) = Raise e s')
   \<and> waitKey \<lparr>frame_captured = True, frame_height = 480, frame_width = 640,
       detected_contours = [], waitKey = 113\<rparr> AND 0xFF = ord CHR ''q''"
  using loop_exit_conditions [where s = initial_vars
      and t = "\<lparr>frame_captured = False, frame_height = 0, frame_width = 0,
           detected_contours = [], waitKey = - 1\<rparr>"
      and ticks =
     "[\<lparr>frame_captured = True, frame_height = 480, frame_width = 640,
       detected_contours = [], waitKey = 112\<rparr>,
      \<lparr>frame_captured = True, frame_height = 480, frame_width = 640,
       detected_contours = [], waitKey = - 1\<rparr>,
      \<lparr>frame_captured = True, frame_height = 480, frame_width = 640,
       detected_contours = [], waitKey = 113\<rparr>,
      \<lparr>frame_captured = True, frame_height = 480, frame_width = 640,
       detected_contours = [], waitKey = 98\<rparr>]"]
    loop_exit_conditions [where s = "initial_vars\<lparr>current_app_state := STATE_PLAY\<rparr>"
      and t = "\<lparr>frame_captured = True, frame_height = 240, frame_width = 320,
           detected_contours = [], waitKey = - 1\<rparr>"
      and ticks = "[]"]
    loop_exit_conditions [where s = initial_vars
      and t = "\<lparr>frame_captured = False, frame_height = 0, frame_width = 0,
           detected_contours = [], waitKey = - 1\<rparr>"
      and ticks =
     "[\<lparr>frame_captured = True, frame_height = 480, frame_width = 640,
       detected_contours = [], waitKey = 112\<rparr>,
      \<lparr>frame_captured = True, frame_height = 480, frame_width = 640,
       detected_contours = [], waitKey = - 1\<rparr>,
      \<lparr>frame_captured = True, frame_height = 480, frame_width = 640,
       detected_contours = [], waitKey = 98\<rparr>]"]
  by (simp add: frame_fits_def video_frame_def WINDOW_HEIGHT_def WINDOW_WIDTH_def)

text \<open>
  The menu is left with \<open>p\<close> on a full-size frame; the next frame has 240 rows and 320
  columns. Both frames were captured and no \<open>q\<close> was read, yet the loop has ended: drawing
  the pads raised \<open>ValueError\<close>.
\<close>

theorem loop_ends_by_uncaught_exception:
  "frame_captured \<lparr>frame_captured = True,
       frame_height = 480, frame_width = 640,
       detected_contours = [], waitKey = 112\<rparr>
   \<and> frame_captured \<lparr>frame_captured = True,
       frame_height = 240, frame_width = 320,
       detected_contours = [], waitKey = - 1\<rparr>
   \<and> (112::int) AND 0xFF \<noteq> ord CHR ''q'' \<and> (- 1::int) AND 0xFF \<noteq> ord CHR ''q''
   \<and> (\<exists>s'. main_loop
     [\<lparr>frame_captured = True, frame_height = 480, frame_width = 640,
       detected_contours = [], waitKey = 112\<rparr>,
      \<lparr>frame_captured = True, frame_height = 240, frame_width = 320,
       detected_contours = [], waitKey = - 1\<rparr>] initial_vars = Raise ValueError s')"
  by (simp add: loop_body_def menu_branch_def play_branch_def render_effect frame_fits_def
      video_frame_def WINDOW_HEIGHT_def WINDOW_WIDTH_def initial_vars_def)

lemma frame_keeps_menu_state:
  "current_app_state (process_play_frame cs s) = current_app_state s
   \<and> showing_credits (process_play_frame cs s) = showing_credits s"
  by (simp add: process_play_frame_def reset_loop_effect contour_loop_effect)

text \<open>
  While the play state lasts, the frames are large enough and neither \<open>b\<close> nor \<open>q\<close> is
  pressed, the loop does to the variables what \<^const>\<open>play_frames\<close> does on the contours of
  the frames.
\<close>

lemma main_loop_play_frames:
  assumes "current_app_state s = STATE_PLAY"
    and "\<forall>t \<in> set ticks. frame_captured t \<and> frame_fits (video_frame t)
           \<and> waitKey t AND 0xFF \<noteq> ord CHR ''b'' \<and> waitKey t AND 0xFF \<noteq> ord CHR ''q''"
  shows "main_loop ticks s = Continue (play_frames (map detected_contours ticks) s)"
  using assms
proof (induction ticks arbitrary: s)
  case Nil
  show ?case by simp
next
  case (Cons t ticks)
  let ?s1 = "process_play_frame (detected_contours t) s"
  have step: "loop_body t s = Continue ?s1"
    using Cons.prems by (simp add: loop_body_def play_branch_def Let_def render_effect)
  have "current_app_state ?s1 = STATE_PLAY"
    using Cons.prems(1) by (simp add: frame_keeps_menu_state)
  then have "main_loop ticks ?s1 = Continue (play_frames (map detected_contours ticks) ?s1)"
    using Cons.IH [of ?s1] Cons.prems(2) by simp
  then show ?case by (simp add: step)
qed

text \<open>
  C6. In the menu state a key other than \<open>p\<close>, \<open>c\<close>, \<open>b\<close>, \<open>q\<close> leaves every variable,
  in particular the application state and the credits flag, unchanged; \<open>p\<close> starts play,
  \<open>c\<close> shows the credits, \<open>b\<close> hides them and \<open>q\<close> leaves the loop. In the play state
  the key is read after the pads are drawn: then a key other than \<open>b\<close>, \<open>q\<close> leaves the
  application state and the credits flag unchanged, \<open>b\<close> goes back to the menu and sets the
  credits flag to false, and \<open>q\<close> leaves the loop. On a frame too small for the pads no key
  is read in the play state: the iteration ends with the exception whatever the key. The
  key is the low byte of what \<open>cv2.waitKey\<close> returns.
\<close>

theorem key_transitions:
  "(current_app_state s = STATE_MENU \<and> frame_captured t
      \<and> waitKey t AND 0xFF \<notin> {ord CHR ''p'', ord CHR ''c'', ord CHR ''b'', ord CHR ''q''} \<longrightarrow>
        loop_body t s = Continue s)
   \<and> (current_app_state s = STATE_PLAY \<and> frame_captured t \<and> frame_fits (video_frame t)
      \<and> waitKey t AND 0xFF \<notin> {ord CHR ''b'', ord CHR ''q''} \<longrightarrow>
        (\<exists>s'. loop_body t s = Continue s' \<and> current_app_state s' = STATE_PLAY
           \<and> showing_credits s' = showing_credits s))
   \<and> (current_app_state s = STATE_PLAY \<and> frame_captured t \<and> frame_fits (video_frame t)
      \<and> waitKey t AND 0xFF = ord CHR ''b'' \<longrightarrow>
        (\<exists>s'. loop_body t s = Continue s' \<and> current_app_state s' = STATE_MENU
           \<and> showing_credits s' = False))
   \<and> (current_app_state s = STATE_PLAY \<and> frame_captured t \<and> frame_fits (video_frame t)
      \<and> waitKey t AND 0xFF = ord CHR ''q'' \<longrightarrow> (\<exists>s'. loop_body t s = Break s'))
   \<and> (current_app_state s = STATE_PLAY \<and> frame_captured t \<and> \<not> frame_fits (video_frame t) \<longrightarrow>
        loop_body t s = Raise ValueError (process_play_frame (detected_contours t) s))
   \<and> (current_app_state s = STATE_MENU \<and> frame_captured t \<longrightarrow>
        (waitKey t AND 0xFF = ord CHR ''p'' \<longrightarrow>
           loop_body t s = Continue (s\<lparr>current_app_state := STATE_PLAY, showing_credits := False\<rparr>))
        \<and> (waitKey t AND 0xFF = ord CHR ''c'' \<longrightarrow>
           loop_body t s = Continue (s\<lparr>showing_credits := True\<rparr>))
        \<and> (waitKey t AND 0xFF = ord CHR ''b'' \<longrightarrow>
           loop_body t s = Continue (s\<lparr>showing_credits := False\<rparr>))
        \<and> (waitKey t AND 0xFF = ord CHR ''q'' \<longrightarrow> loop_body t s = Break s))"
  by (simp add: loop_body_def menu_branch_def play_branch_def Let_def frame_keeps_menu_state
      render_effect)

theorem key_transitions_witness:
  "current_app_state initial_vars = STATE_MENU
   \<and> frame_fits (video_frame \<lparr>frame_captured = True, frame_height = 480, frame_width = 640,
        detected_contours = [], waitKey = 120\<rparr>)
   \<and> \<not> frame_fits (video_frame \<lparr>frame_captured = True, frame_height = 240, frame_width = 320,
        detected_contours = [], waitKey = 98\<rparr>)
   \<and> waitKey \<lparr>frame_captured = True, frame_height = 480, frame_width = 640,
        detected_contours = [], waitKey = 120\<rparr> AND 0xFF
        \<notin> {ord CHR ''p'', ord CHR ''c'', ord CHR ''b'', ord CHR ''q''}
   \<and> loop_body \<lparr>frame_captured = True, frame_height = 480, frame_width = 640,
        detected_contours = [], waitKey = 120\<rparr> initial_vars
        = Continue initial_vars
   \<and> current_app_state (initial_vars\<lparr>current_app_state := STATE_PLAY\<rparr>) = STATE_PLAY
   \<and> waitKey \<lparr>frame_captured = True, frame_height = 480, frame_width = 640,
        detected_contours = [], waitKey = - 1\<rparr> AND 0xFF
        \<notin> {ord CHR ''b'', ord CHR ''q''}
   \<and> (\<exists>s'. loop_body \<lparr>frame_captured = True,
          frame_height = 480, frame_width = 640,
          detected_contours = [], waitKey = - 1\<rparr>
          (initial_vars\<lparr>current_app_state := STATE_PLAY\<rparr>) = Continue s'
        \<and> current_app_state s' = STATE_PLAY \<and> showing_credits s' = False)
   \<and> waitKey \<lparr>frame_captured = True, frame_height = 480, frame_width = 640,
        detected_contours = [], waitKey = 98\<rparr> AND 0xFF
        = ord CHR ''b''
   \<and> (\<exists>s'. loop_body \<lparr>frame_captured = True,
          frame_height = 480, frame_width = 640,
          detected_contours = [], waitKey = 98\<rparr>
          (initial_vars\<lparr>current_app_state := STATE_PLAY\<rparr>) = Continue s'
        \<and> current_app_state s' = STATE_MENU \<and> showing_credits s' = False)
   \<and> loop_body \<lparr>frame_captured = True,
          frame_height = 240, frame_width = 320,
          detected_contours = [], waitKey = 98\<rparr>
          (initial_vars\<lparr>current_app_state := STATE_PLAY\<rparr>)
        = Raise ValueError (process_play_frame [] (initial_vars\<lparr>current_app_state := STATE_PLAY\<rparr>))
   \<and> waitKey \<lparr>frame_captured = True, frame_height = 480, frame_width = 640,
        detected_contours = [], waitKey = 112\<rparr> AND 0xFF
        = ord CHR ''p''
   \<and> loop_body \<lparr>frame_captured = True, frame_height = 480, frame_width = 640,
        detected_contours = [], waitKey = 112\<rparr> initial_vars
        = Continue (initial_vars\<lparr>current_app_state := STATE_PLAY, showing_credits := False\<rparr>)"
  using key_transitions [where s = initial_vars
      and t = "\<lparr>frame_captured = True, frame_height = 480, frame_width = 640,
        detected_contours = [], waitKey = 120\<rparr>"]
    key_transitions [where s = "initial_vars\<lparr>current_app_state := STATE_PLAY\<rparr>"
      and t = "\<lparr>frame_captured = True, frame_height = 480, frame_width = 640,
        detected_contours = [], waitKey = - 1\<rparr>"]
    key_transitions [where s = "initial_vars\<lparr>current_app_state := STATE_PLAY\<rparr>"
      and t = "\<lparr>frame_captured = True, frame_height = 480, frame_width = 640,
        detected_contours = [], waitKey = 98\<rparr>"]
    key_transitions [where s = "initial_vars\<lparr>current_app_state := STATE_PLAY\<rparr>"
      and t = "\<lparr>frame_captured = True, frame_height = 240, frame_width = 320,
        detected_contours = [], waitKey = 98\<rparr>"]
    key_transitions [where s = initial_vars
      and t = "\<lparr>frame_captured = True, frame_height = 480, frame_width = 640,
        detected_contours = [], waitKey = 112\<rparr>"]
  by (simp add: initial_vars_def frame_fits_def video_frame_def WINDOW_HEIGHT_def WINDOW_WIDTH_def)

section \<open>Shared boundaries of the bottom row\<close>

lemma zone_width_eq: "zone_width = 128"
  by (simp add: zone_width_def WINDOW_WIDTH_def number_of_drums_def bottom_row_drums_def)

text \<open>
  C9. The pads of the bottom row are \<open>zone_width = WINDOW_WIDTH div 5 = 128\<close> wide and
  neighbours share their boundary column: for \<open>k\<close> from 1 to 4 and \<open>380 \<le> py \<le> 480\<close> the
  point \<open>(k * zone_width, py)\<close> is inside pad \<open>k - 1\<close> and inside pad \<open>k\<close>. A single tracked
  object with that centre starts the sounds of both pads in the same frame when both locks
  are open.
\<close>

theorem shared_boundary_hits_two_zones:
  "k \<in> {1, 2, 3, 4} \<and> 380 \<le> py \<and> py \<le> 480 \<longrightarrow>
     zone_width = WINDOW_WIDTH div 5 \<and> zone_width = 128
     \<and> bottom_row_drums ! (k - 1) \<noteq> bottom_row_drums ! k
     \<and> (\<exists>left right.
           map_of drum_zones (bottom_row_drums ! (k - 1)) = Some left
           \<and> map_of drum_zones (bottom_row_drums ! k) = Some right
           \<and> box left = (int (k - 1) * zone_width, 380, int k * zone_width, 480)
           \<and> box right = (int k * zone_width, 380, int (k + 1) * zone_width, 480)
           \<and> is_point_inside_zone (int k * zone_width) py (box left)
           \<and> is_point_inside_zone (int k * zone_width) py (box right))
     \<and> (contourArea c > 500 \<and> boundingRect c = (x, y, w, h)
          \<and> x + w div 2 = int k * zone_width \<and> y + h div 2 = py
          \<and> \<not> sound_is_locked s (bottom_row_drums ! (k - 1))
          \<and> \<not> sound_is_locked s (bottom_row_drums ! k) \<longrightarrow>
            count_list (frame_triggers [c] s) (bottom_row_drums ! (k - 1)) = 1
            \<and> count_list (frame_triggers [c] s) (bottom_row_drums ! k) = 1)"
proof (intro impI)
  assume a: "k \<in> {1, 2, 3, 4} \<and> 380 \<le> py \<and> py \<le> 480"
  have w: "zone_width = WINDOW_WIDTH div 5 \<and> zone_width = 128"
    by (simp add: zone_width_eq WINDOW_WIDTH_def)
  have n: "bottom_row_drums ! (k - 1) \<noteq> bottom_row_drums ! k"
    using a by (auto simp: bottom_row_drums_def)
  from a consider "k = 1" | "k = 2" | "k = 3" | "k = 4" by auto
  then have z: "\<exists>left right.
           map_of drum_zones (bottom_row_drums ! (k - 1)) = Some left
           \<and> map_of drum_zones (bottom_row_drums ! k) = Some right
           \<and> box left = (int (k - 1) * zone_width, 380, int k * zone_width, 480)
           \<and> box right = (int k * zone_width, 380, int (k + 1) * zone_width, 480)
           \<and> is_point_inside_zone (int k * zone_width) py (box left)
           \<and> is_point_inside_zone (int k * zone_width) py (box right)"
    using a by cases (simp_all add: bottom_row_drums_def drum_zones_eq zone_width_eq)
  have t: "count_list (frame_triggers [c] s) (bottom_row_drums ! (k - 1)) = 1
            \<and> count_list (frame_triggers [c] s) (bottom_row_drums ! k) = 1"
    if b: "contourArea c > 500 \<and> boundingRect c = (x, y, w, h)
          \<and> x + w div 2 = int k * zone_width \<and> y + h div 2 = py
          \<and> \<not> sound_is_locked s (bottom_row_drums ! (k - 1))
          \<and> \<not> sound_is_locked s (bottom_row_drums ! k)"
  proof -
    have d: "detected_objects [c] = [(int k * zone_width, py)]"
      using b by (simp add: detected_objects_def)
    from z have "HitState (detected_objects [c]) (bottom_row_drums ! (k - 1))
        \<and> HitState (detected_objects [c]) (bottom_row_drums ! k)"
      unfolding d HitState_single by auto
    then show ?thesis using b by (simp add: frame_triggers_count)
  qed
  show "zone_width = WINDOW_WIDTH div 5 \<and> zone_width = 128
     \<and> bottom_row_drums ! (k - 1) \<noteq> bottom_row_drums ! k
     \<and> (\<exists>left right.
           map_of drum_zones (bottom_row_drums ! (k - 1)) = Some left
           \<and> map_of drum_zones (bottom_row_drums ! k) = Some right
           \<and> box left = (int (k - 1) * zone_width, 380, int k * zone_width, 480)
           \<and> box right = (int k * zone_width, 380, int (k + 1) * zone_width, 480)
           \<and> is_point_inside_zone (int k * zone_width) py (box left)
           \<and> is_point_inside_zone (int k * zone_width) py (box right))
     \<and> (contourArea c > 500 \<and> boundingRect c = (x, y, w, h)
          \<and> x + w div 2 = int k * zone_width \<and> y + h div 2 = py
          \<and> \<not> sound_is_locked s (bottom_row_drums ! (k - 1))
          \<and> \<not> sound_is_locked s (bottom_row_drums ! k) \<longrightarrow>
            count_list (frame_triggers [c] s) (bottom_row_drums ! (k - 1)) = 1
            \<and> count_list (frame_triggers [c] s) (bottom_row_drums ! k) = 1)"
    using w n z t by blast
qed

theorem shared_boundary_hits_two_zones_witness:
  "(1::nat) \<in> {1, 2, 3, 4} \<and> (380::int) \<le> 430 \<and> (430::int) \<le> 480
   \<and> bottom_row_drums ! (1 - 1) = ''Kick'' \<and> bottom_row_drums ! 1 = ''Snare''
   \<and> contourArea \<lparr>contourArea = 600, boundingRect = (118, 420, 20, 20)\<rparr> > 500
   \<and> 118 + 20 div 2 = int 1 * zone_width \<and> (420::int) + 20 div 2 = 430
   \<and> \<not> sound_is_locked initial_vars (bottom_row_drums ! (1 - 1))
   \<and> \<not> sound_is_locked initial_vars (bottom_row_drums ! 1)
   \<and> count_list (frame_triggers [\<lparr>contourArea = 600, boundingRect = (118, 420, 20, 20)\<rparr>]
        initial_vars) (bottom_row_drums ! (1 - 1)) = 1
   \<and> count_list (frame_triggers [\<lparr>contourArea = 600, boundingRect = (118, 420, 20, 20)\<rparr>]
        initial_vars) (bottom_row_drums ! 1) = 1"
  using shared_boundary_hits_two_zones [where k = 1 and py = 430
      and c = "\<lparr>contourArea = 600, boundingRect = (118, 420, 20, 20)\<rparr>"
      and x = 118 and y = 420 and w = 20 and h = 20 and s = initial_vars]
  by (simp add: bottom_row_drums_def initial_vars_def)

section \<open>The two-phase model\<close>

lemma spec_debounce_zone_eq: "spec_debounce_zone locked hit = (hit \<and> \<not> locked, hit)"
  by (cases locked; cases hit) simp_all

lemma spec_debouncer_effect:
  "distinct names \<Longrightarrow>
   count_list (fst (spec_debouncer names hit lock)) z
     = (if z \<in> set names \<and> hit z \<and> \<not> lock z then 1 else 0)
   \<and> snd (spec_debouncer names hit lock) z = (if z \<in> set names then hit z else lock z)"
proof (induction names arbitrary: lock)
  case Nil
  show ?case by simp
next
  case (Cons n names)
  from Cons.prems have d: "distinct names" and n: "n \<notin> set names" by simp_all
  obtain ts l where r: "spec_debouncer names hit (lock(n := hit n)) = (ts, l)"
    by (cases "spec_debouncer names hit (lock(n := hit n))")
  have e: "spec_debouncer (n # names) hit lock
      = ((if hit n \<and> \<not> lock n then [n] else []) @ ts, l)"
    by (simp add: spec_debounce_zone_eq r)
  have ih: "count_list ts z
        = (if z \<in> set names \<and> hit z \<and> \<not> (lock(n := hit n)) z then 1 else 0)
      \<and> l z = (if z \<in> set names then hit z else (lock(n := hit n)) z)"
    using Cons.IH [OF d, of "lock(n := hit n)"] unfolding r by simp
  show ?case
  proof (cases "z = n")
    case True
    then show ?thesis using ih n unfolding e by simp
  next
    case False
    then show ?thesis using ih unfolding e by simp
  qed
qed

lemma count_list_eq_set_eq:
  assumes "\<And>z. count_list xs z = count_list ys z"
  shows "set xs = set ys"
proof -
  have "z \<in> set xs \<longleftrightarrow> z \<in> set ys" for z
    using assms [of z] count_list_0_iff [of xs z] count_list_0_iff [of ys z] by simp
  then show ?thesis by blast
qed

lemma two_phase_parts:
  "count_list (fst (spec_two_phase_frame cs lock)) z
     = (if HitState (detected_objects cs) z \<and> \<not> lock z then 1 else 0)
   \<and> fst (snd (spec_two_phase_frame cs lock)) z
     = (if z \<in> set (map fst drum_zones) then HitState (detected_objects cs) z else lock z)
   \<and> snd (snd (spec_two_phase_frame cs lock)) = HitState (detected_objects cs)"
proof -
  let ?d = "spec_debouncer (map fst drum_zones) (HitState (detected_objects cs)) lock"
  have f: "spec_two_phase_frame cs lock = (fst ?d, snd ?d, HitState (detected_objects cs))"
    by (simp add: spec_two_phase_frame_def Let_def case_prod_unfold)
  show ?thesis
    unfolding f
    using spec_debouncer_effect [OF drum_names_distinct, of "HitState (detected_objects cs)" lock z]
      HitState_name [of cs z]
    by auto
qed

text \<open>
  C10. For every frame and every prior lock state, processing the frame as the code does
  (sounds started inside the contour loop) and the two-phase model (the whole hit state
  first, then the debouncer zone by zone) emit the same triggers, as a set and counted with
  multiplicity, and end with the same locks and the same hit state.
\<close>

theorem interleaved_refines_two_phase:
  "set (frame_triggers cs s) = set (fst (spec_two_phase_frame cs (sound_is_locked s)))
   \<and> (\<forall>z. count_list (frame_triggers cs s) z
         = count_list (fst (spec_two_phase_frame cs (sound_is_locked s))) z)
   \<and> sound_is_locked (process_play_frame cs s)
       = fst (snd (spec_two_phase_frame cs (sound_is_locked s)))
   \<and> drums_being_hit (process_play_frame cs s)
       = snd (snd (spec_two_phase_frame cs (sound_is_locked s)))"
proof -
  have c: "count_list (frame_triggers cs s) z
      = count_list (fst (spec_two_phase_frame cs (sound_is_locked s))) z" for z
    by (simp add: frame_triggers_count two_phase_parts)
  have l: "sound_is_locked (process_play_frame cs s)
      = fst (snd (spec_two_phase_frame cs (sound_is_locked s)))"
  proof
    fix z
    show "sound_is_locked (process_play_frame cs s) z
      = fst (snd (spec_two_phase_frame cs (sound_is_locked s))) z"
      using frame_effect [of cs s z] two_phase_parts [of cs "sound_is_locked s" z] by simp
  qed
  have h: "drums_being_hit (process_play_frame cs s)
      = snd (snd (spec_two_phase_frame cs (sound_is_locked s)))"
  proof
    fix z
    show "drums_being_hit (process_play_frame cs s) z
      = snd (snd (spec_two_phase_frame cs (sound_is_locked s))) z"
      using frame_effect [of cs s z] two_phase_parts [of cs "sound_is_locked s" z] by simp
  qed
  from c have "set (frame_triggers cs s) = set (fst (spec_two_phase_frame cs (sound_is_locked s)))"
    by (rule count_list_eq_set_eq)
  then show ?thesis using c l h by simp
qed

text \<open>
  On a frame with one object in the Snare pad followed by one in the Kick pad the code
  starts Snare before Kick, the two-phase model lists Kick before Snare: the same set.
\<close>

theorem interleaved_refines_two_phase_witness:
  "frame_triggers
     [\<lparr>contourArea = 600, boundingRect = (180, 420, 20, 20)\<rparr>,
      \<lparr>contourArea = 700, boundingRect = (54, 420, 20, 20)\<rparr>] initial_vars
     = [''Snare'', ''Kick'']
   \<and> fst (spec_two_phase_frame
     [\<lparr>contourArea = 600, boundingRect = (180, 420, 20, 20)\<rparr>,
      \<lparr>contourArea = 700, boundingRect = (54, 420, 20, 20)\<rparr>] (sound_is_locked initial_vars))
     = [''Kick'', ''Snare'']
   \<and> set [''Snare'', ''Kick''] = set [''Kick'', ''Snare'']"
proof -
  let ?frame = "[\<lparr>contourArea = 600, boundingRect = (180, 420, 20, 20)\<rparr>,
      \<lparr>contourArea = 700, boundingRect = (54, 420, 20, 20)\<rparr>]"
  have code: "frame_triggers ?frame initial_vars = [''Snare'', ''Kick'']"
    by code_simp
  have model: "fst (spec_two_phase_frame ?frame (sound_is_locked initial_vars))
      = [''Kick'', ''Snare'']"
    by code_simp
  have "set (frame_triggers ?frame initial_vars)
      = set (fst (spec_two_phase_frame ?frame (sound_is_locked initial_vars)))"
    using interleaved_refines_two_phase [of ?frame initial_vars] by blast
  then have "set [''Snare'', ''Kick''] = set [''Kick'', ''Snare'']"
    unfolding code model .
  with code model show ?thesis by blast
qed

section \<open>The image loader\<close>









end
